theory Spec2Isabelle
  imports Complex_Main "HOL-Library.Char_ord" "HOL-Library.List_Lexorder" "HOL-Library.Multiset"
begin

section \<open>Lead scorer (leadgen.py, score_lead)\<close>

text \<open>
  Python passes untyped values to \<open>score_lead\<close>. For the three numeric arguments the
  function only compares the value with a constant (after \<open>float\<close> or \<open>int\<close> for the
  last two), inside a \<open>try\<close> whose handler adds the same points as the comparison.
  A numeric argument is therefore modelled by what the guarded expression makes of it:
  \<^item> \<open>NoneV\<close>: the value is \<open>None\<close>;
  \<^item> \<open>Conv x\<close>: the comparison is carried out on the number \<open>x\<close> (for the rating
    \<open>x = float(rating)\<close>, for the review count \<open>x = int(user_ratings_total)\<close>);
  \<^item> \<open>Raises\<close>: evaluating the guarded expression raises an exception.
  \<open>None < 5000\<close> raises \<open>TypeError\<close> in Python 3, so \<open>NoneV\<close> takes the handler for the
  page length; for the other two the source tests \<open>is None\<close> first.
  Floating-point NaN is outside the model.
\<close>

datatype 'a conv = NoneV | Conv 'a | Raises

definition score_lead ::
  "bool \<Rightarrow> bool \<Rightarrow> bool \<Rightarrow> int conv \<Rightarrow> string list \<Rightarrow> bool \<Rightarrow> real conv \<Rightarrow> int conv \<Rightarrow> int" where
  "score_lead has_website https has_viewport html_length emails has_cta rating user_ratings_total =
    (let score = 0 in
     if \<not> has_website then score + 10
     else
       let score = (if \<not> https then score + 5 else score);
           score = (if \<not> has_viewport then score + 3 else score);
           score = (case html_length of
                      Conv n \<Rightarrow> (if n < 5000 then score + 3 else score)
                    | NoneV \<Rightarrow> score + 3
                    | Raises \<Rightarrow> score + 3);
           score = (if emails = [] then score + 2 else score);
           score = (if \<not> has_cta then score + 2 else score);
           score = (case rating of
                      NoneV \<Rightarrow> score + 1
                    | Conv r \<Rightarrow> (if r < 4.5 then score + 1 else score)
                    | Raises \<Rightarrow> score + 1);
           score = (case user_ratings_total of
                      NoneV \<Rightarrow> score + 1
                    | Conv c \<Rightarrow> (if c < 15 then score + 1 else score)
                    | Raises \<Rightarrow> score + 1)
       in score)"

text \<open>
  Points of one numeric signal below a threshold; used to state the score as a sum.
\<close>

fun below_points :: "'a::linorder \<Rightarrow> int \<Rightarrow> 'a conv \<Rightarrow> int" where
  "below_points limit w (Conv x) = (if x < limit then w else 0)"
| "below_points limit w NoneV = w"
| "below_points limit w Raises = w"

section \<open>Duplicate filter (lead_filter.py, is_new_place)\<close>

text \<open>
  \<open>is_new_place\<close> mutates the set it is given; the model returns the answer together
  with the set after the call. The lock makes the body one step, which is what a
  function from the set before to the set after says.
\<close>

definition is_new_place :: "string \<Rightarrow> string set \<Rightarrow> bool \<times> string set" where
  "is_new_place place_id existing_ids =
    (if place_id \<in> existing_ids then (False, existing_ids)
     else (True, insert place_id existing_ids))"

section \<open>Upstream gateway (leadgen.py, get_places)\<close>

text \<open>
  \<open>get_places\<close> talks to the nearby-search API. The API is the environment of the
  program: \<open>upstream i\<close> is the answer to the \<open>i\<close>-th search request the run
  issues, counted from 0. The program is deterministic, so every behaviour of a real
  upstream along one run is such a sequence. An answer is \<open>Failed\<close> when
  \<open>requests.get\<close>, \<open>r.json()\<close> or the logging inside the \<open>try\<close> raises, and
  otherwise a page: the \<open>results\<close> array and the \<open>next_page_token\<close>, if any. Result
  items have the fields of the API (section 6 of the specification); ratings and review
  counts are JSON numbers or absent.

  The state of the search is the dictionary \<open>places\<close> (insertion ordered, as Python
  dictionaries are), the number of requests sent, and the trace of what the run did on
  the network and the clock.
\<close>

definition PLACES_SLEEP :: nat where "PLACES_SLEEP = 2"

record place =
  p_name :: "string option"
  p_place_id :: "string option"
  p_rating :: "real option"
  p_user_ratings_total :: "int option"
  p_vicinity :: "string option"
  p_formatted_address :: "string option"

record business =
  b_business_name :: "string option"
  b_place_id :: "string option"
  b_rating :: "real option"
  b_user_ratings_total :: "int option"
  b_address :: "string option"

datatype response = Failed | Page "place list" "string option"

datatype params =
  Nearby string int string "string option"
| PageToken string "string option"

datatype event = Get params | Sleep nat | GetDetails "string option" "string option" | Fetch string

text \<open>Python truthiness of an optional string, and \<open>a or b\<close> on such values.\<close>

definition truthy :: "string option \<Rightarrow> bool" where
  "truthy v = (case v of None \<Rightarrow> False | Some s \<Rightarrow> s \<noteq> [])"

definition py_or :: "string option \<Rightarrow> string option \<Rightarrow> string option" where
  "py_or a b = (if truthy a then a else b)"

record gstate =
  places :: "(string \<times> business) list"
  sent :: nat
  trace :: "event list"

fun add_results :: "place list \<Rightarrow> (string \<times> business) list \<Rightarrow> (string \<times> business) list" where
  "add_results [] dict = dict"
| "add_results (p # ps) dict =
    (case p_place_id p of
       None \<Rightarrow> add_results ps dict
     | Some pid \<Rightarrow>
         if pid = [] then add_results ps dict
         else if pid \<in> fst ` set dict then add_results ps dict
         else add_results ps
                (dict @ [(pid, \<lparr>b_business_name = p_name p, b_place_id = Some pid,
                                  b_rating = p_rating p,
                                  b_user_ratings_total = p_user_ratings_total p,
                                  b_address = py_or (p_vicinity p) (p_formatted_address p)\<rparr>)]))"

text \<open>
  The \<open>while True\<close> loop of one keyword. Nothing in the source bounds the number of
  pages, so the loop is a partial function: \<open>None\<close> is a loop that never returns.
\<close>

partial_function (option) page_loop ::
  "(nat \<Rightarrow> response) \<Rightarrow> string option \<Rightarrow> params \<Rightarrow> gstate \<Rightarrow> gstate option" where
  "page_loop upstream api_key params s =
    (case upstream (sent s) of
       Failed \<Rightarrow> Some (s\<lparr>sent := Suc (sent s), trace := trace s @ [Get params]\<rparr>)
     | Page results next_token \<Rightarrow>
         (let s' = s\<lparr>places := add_results results (places s), sent := Suc (sent s),
                      trace := trace s @ [Get params]\<rparr>
          in case next_token of
               None \<Rightarrow> Some s'
             | Some tok \<Rightarrow>
                 if tok = [] then Some s'
                 else page_loop upstream api_key (PageToken tok api_key)
                        (s'\<lparr>trace := trace s' @ [Sleep PLACES_SLEEP]\<rparr>)))"

declare page_loop.simps [code]

fun keyword_loop ::
  "(nat \<Rightarrow> response) \<Rightarrow> string \<Rightarrow> int \<Rightarrow> string option \<Rightarrow> string list \<Rightarrow> gstate \<Rightarrow> gstate option" where
  "keyword_loop upstream location radius api_key [] s = Some s"
| "keyword_loop upstream location radius api_key (kw # kws) s =
    (case page_loop upstream api_key (Nearby location radius kw api_key) s of
       None \<Rightarrow> None
     | Some s' \<Rightarrow> keyword_loop upstream location radius api_key kws s')"

definition get_places ::
  "(nat \<Rightarrow> response) \<Rightarrow> string \<Rightarrow> int \<Rightarrow> string list \<Rightarrow> string option \<Rightarrow> (business list \<times> event list) option" where
  "get_places upstream location radius keywords api_key =
    (case keyword_loop upstream location radius api_key keywords \<lparr>places = [], sent = 0, trace = []\<rparr> of
       None \<Rightarrow> None
     | Some s \<Rightarrow> Some (map snd (places s), trace s))"

text \<open>
  Vocabulary for the statements about pagination: a response that ends the chain (a
  failure, or a page whose token is absent or empty), the token a page carries, the
  events of \<open>k\<close> delayed re-queries starting at request \<open>n\<close>, and the number of
  delays in a trace.
\<close>

fun stops :: "response \<Rightarrow> bool" where
  "stops Failed = True"
| "stops (Page results next_token) = (\<not> truthy next_token)"

fun token_of :: "response \<Rightarrow> string" where
  "token_of (Page results (Some tok)) = tok"
| "token_of _ = []"

fun requeries :: "(nat \<Rightarrow> response) \<Rightarrow> string option \<Rightarrow> nat \<Rightarrow> nat \<Rightarrow> event list" where
  "requeries upstream api_key n 0 = []"
| "requeries upstream api_key n (Suc k) =
     Sleep PLACES_SLEEP # Get (PageToken (token_of (upstream n)) api_key)
       # requeries upstream api_key (Suc n) k"

fun delays :: "event list \<Rightarrow> nat" where
  "delays [] = 0"
| "delays (Sleep d # es) = Suc (delays es)"
| "delays (e # es) = delays es"

section \<open>Contact extractor (leadgen.py, get_place_details and analyze_website)\<close>

text \<open>
  The exceptions that leave a function of the program, as values.
\<close>

datatype exn = UnicodeDecodeError | EmptyDataError | KeyError | TypeError

text \<open>
  The rest of the environment. \<open>place_details\<close> answers a details request (\<open>None\<close>
  when the request or its decoding raises). Library code enters as parameters:
  \<open>urlparse_scheme\<close> is \<open>urlparse(url).scheme\<close> (\<open>Inl\<close> when \<open>urlparse\<close> raises),
  \<open>http_get\<close> is \<open>requests.get(url, timeout=10)\<close> followed by \<open>r.text or ""\<close>
  (\<open>Inl\<close> carries \<open>str(e)\<close> of the exception), \<open>parse_page\<close> stands for the
  regular expressions and the HTML parser applied to a fetched page (\<open>Inl\<close> when they
  raise), \<open>py_len\<close> is \<open>len\<close> on a fetched text (Python counts code points, a
  string here is a list of bytes), \<open>csv_text\<close> is the text the \<open>csv\<close> module reads for
  a stored cell, \<open>read_back\<close> gives the rows as \<open>pandas.read_csv\<close> types them when it
  reads a stored table back (from its header and its rows as written), and \<open>shuffle\<close>
  is the order in which pandas' default sort, which is not stable, happens to visit
  the rows.
  A cell is a value of a result row; rows are Python dictionaries, kept as association
  lists in insertion order.
\<close>

record details =
  d_website :: "string option"
  d_phone_google :: "string option"
  d_address :: "string option"

record page =
  pg_has_title :: bool
  pg_has_viewport :: bool
  pg_emails :: "string list"
  pg_phones :: "string list"
  pg_has_cta :: bool

datatype cell = CNone | CStr string | CInt int | CFloat real | CBool bool

type_synonym row = "(string \<times> cell) list"

record world =
  nearby_search :: "nat \<Rightarrow> response"
  place_details :: "string option \<Rightarrow> details option"
  urlparse_scheme :: "string \<Rightarrow> string + string"
  http_get :: "string \<Rightarrow> string + string"
  parse_page :: "string \<Rightarrow> string + page"
  py_len :: "string \<Rightarrow> nat"
  csv_text :: "cell \<Rightarrow> string"
  read_back :: "string list \<Rightarrow> row list \<Rightarrow> row list"
  shuffle :: "row list \<Rightarrow> row list"

definition get_place_details :: "world \<Rightarrow> string option \<Rightarrow> details" where
  "get_place_details w pid =
    (case place_details w pid of
       Some d \<Rightarrow> d
     | None \<Rightarrow> \<lparr>d_website = None, d_phone_google = None, d_address = None\<rparr>)"

text \<open>The dictionary \<open>analyze_website\<close> returns, and its initial value.\<close>

record analysis =
  a_emails :: "string list"
  a_phones_website :: "string list"
  a_https :: bool
  a_has_viewport :: bool
  a_html_length :: int
  a_has_title :: bool
  a_has_cta :: bool
  a_error :: "string option"

definition default_analysis :: analysis where
  "default_analysis =
    \<lparr>a_emails = [], a_phones_website = [], a_https = False, a_has_viewport = False,
     a_html_length = 0, a_has_title = False, a_has_cta = False, a_error = None\<rparr>"

text \<open>
  \<open>str.lower\<close> and \<open>str.startswith\<close>. Strings are byte strings here; only the ASCII
  letters change case, which is all the test for \<open>https://\<close> looks at.
\<close>

definition lower_char :: "char \<Rightarrow> char" where
  "lower_char c =
    (let n = (of_char c :: nat) in if 65 \<le> n \<and> n \<le> 90 then char_of (n + 32) else c)"

definition lower :: "string \<Rightarrow> string" where
  "lower s = map lower_char s"

definition startswith :: "string \<Rightarrow> string \<Rightarrow> bool" where
  "startswith s p = (take (length p) s = p)"

text \<open>
  The two lines of \<open>analyze_website\<close> that give the URL a scheme, and the function.
  \<open>Inl\<close> is an exception that leaves \<open>analyze_website\<close>; \<open>Inr\<close> is its return value.
\<close>

definition normalize_url :: "world \<Rightarrow> string \<Rightarrow> string + string" where
  "normalize_url w url =
    (let url = (if startswith url ''//'' then ''https:'' @ url else url) in
     case urlparse_scheme w url of
       Inl e \<Rightarrow> Inl e
     | Inr scheme \<Rightarrow> Inr (if scheme = [] then ''http://'' @ url else url))"

definition analyze_website :: "world \<Rightarrow> string \<Rightarrow> string + analysis" where
  "analyze_website w url =
    (let result = default_analysis in
     if url = [] then Inr result
     else
       case normalize_url w url of
         Inl e \<Rightarrow> Inl e
       | Inr url \<Rightarrow>
           (let result = result\<lparr>a_https := startswith (lower url) ''https://''\<rparr> in
            case http_get w url of
              Inl e \<Rightarrow> Inr (result\<lparr>a_error := Some e\<rparr>)
            | Inr html \<Rightarrow>
                (case parse_page w html of
                   Inl e \<Rightarrow> Inl e
                 | Inr pg \<Rightarrow>
                     Inr (result\<lparr>a_html_length := int (py_len w html),
                                 a_has_title := pg_has_title pg,
                                 a_has_viewport := pg_has_viewport pg,
                                 a_emails := pg_emails pg,
                                 a_phones_website := pg_phones pg,
                                 a_has_cta := pg_has_cta pg\<rparr>))))"

section \<open>Enrichment orchestrator (leadgen.py, process_businesses)\<close>

text \<open>
  \<open>process_businesses\<close> in its four phases: the sequential details phase
  (\<open>enrich\<close>), the in-batch deduplication (\<open>dedup_loop\<close>, the dictionary \<open>unique\<close>
  in insertion order), the analysis phase and the assembly of rows.

  The analysis phase runs on a thread pool and stores each result under the place id
  of its business. The model stores them in submission order; the order of completion
  only matters when two businesses of the batch share a place id, which \<open>get_places\<close>
  never produces.

  A result row does not name the place it was built for, so \<open>build_rows\<close> pairs each
  row with that place id; \<open>process_businesses\<close> returns these pairs, the identifier
  set after the run, and the network events of the phase.
\<close>

record entry =
  e_business_name :: "string option"
  e_place_id :: "string option"
  e_address :: "string option"
  e_phone_google :: "string option"
  e_website :: "string option"
  e_rating :: "real option"
  e_user_ratings_total :: "int option"

definition enrich :: "world \<Rightarrow> business \<Rightarrow> entry" where
  "enrich w b =
    (let details = get_place_details w (b_place_id b) in
     \<lparr>e_business_name = b_business_name b,
      e_place_id = b_place_id b,
      e_address = py_or (d_address details) (b_address b),
      e_phone_google = d_phone_google details,
      e_website = d_website details,
      e_rating = b_rating b,
      e_user_ratings_total = b_user_ratings_total b\<rparr>)"

definition dedup_key :: "entry \<Rightarrow> string option" where
  "dedup_key e = py_or (e_website e) (e_business_name e)"

fun dedup_loop :: "entry list \<Rightarrow> (string option \<times> entry) list \<Rightarrow> (string option \<times> entry) list" where
  "dedup_loop [] unique = unique"
| "dedup_loop (e # es) unique =
    (let key = dedup_key e in
     if key \<in> fst ` set unique then dedup_loop es unique
     else dedup_loop es (unique @ [(key, e)]))"

definition businesses_unique :: "entry list \<Rightarrow> entry list" where
  "businesses_unique enriched = map snd (dedup_loop enriched [])"

definition run_analysis :: "world \<Rightarrow> entry \<Rightarrow> analysis" where
  "run_analysis w b =
    (case e_website b of
       None \<Rightarrow> default_analysis
     | Some url \<Rightarrow>
         if url = [] then default_analysis
         else (case analyze_website w url of
                 Inr a \<Rightarrow> a
               | Inl e \<Rightarrow> default_analysis\<lparr>a_error := Some e\<rparr>))"

fun collect_analyses ::
  "world \<Rightarrow> entry list \<Rightarrow> (string option \<rightharpoonup> analysis) \<Rightarrow> (string option \<rightharpoonup> analysis)" where
  "collect_analyses w [] analyses = analyses"
| "collect_analyses w (b # bs) analyses =
     collect_analyses w bs (analyses(e_place_id b \<mapsto> run_analysis w b))"

fun join :: "string \<Rightarrow> string list \<Rightarrow> string" where
  "join sep [] = []"
| "join sep [x] = x"
| "join sep (x # y # ys) = x @ sep @ join sep (y # ys)"

definition str_cell :: "string option \<Rightarrow> cell" where
  "str_cell v = (case v of None \<Rightarrow> CNone | Some s \<Rightarrow> CStr s)"

definition opt_conv :: "'a option \<Rightarrow> 'a conv" where
  "opt_conv v = (case v of None \<Rightarrow> NoneV | Some x \<Rightarrow> Conv x)"

definition make_row :: "entry \<Rightarrow> analysis \<Rightarrow> row" where
  "make_row b a =
    (let has_website = truthy (e_website b);
         lead_score = score_lead has_website (a_https a) (a_has_viewport a)
                        (Conv (a_html_length a)) (a_emails a) (a_has_cta a)
                        (opt_conv (e_rating b)) (opt_conv (e_user_ratings_total b))
     in [(''business_name'', str_cell (e_business_name b)),
         (''address'', str_cell (e_address b)),
         (''phone_google'', str_cell (e_phone_google b)),
         (''phone_website'', if a_phones_website a \<noteq> [] then CStr (join '';'' (a_phones_website a)) else CNone),
         (''email'', if a_emails a \<noteq> [] then CStr (join '';'' (a_emails a)) else CNone),
         (''website'', str_cell (e_website b)),
         (''rating'', case e_rating b of None \<Rightarrow> CNone | Some r \<Rightarrow> CFloat r),
         (''user_ratings_total'', case e_user_ratings_total b of None \<Rightarrow> CNone | Some n \<Rightarrow> CInt n),
         (''https'', CBool (a_https a)),
         (''has_viewport'', CBool (a_has_viewport a)),
         (''html_length'', CInt (a_html_length a)),
         (''lead_score'', CInt lead_score)])"

fun build_rows ::
  "(string option \<rightharpoonup> analysis) \<Rightarrow> entry list \<Rightarrow> string set \<Rightarrow> (string \<times> row) list
     \<Rightarrow> (string \<times> row) list \<times> string set" where
  "build_rows analyses [] existing_ids rows = (rows, existing_ids)"
| "build_rows analyses (b # bs) existing_ids rows =
    (case e_place_id b of
       None \<Rightarrow> build_rows analyses bs existing_ids rows
     | Some pid \<Rightarrow>
         if pid = [] then build_rows analyses bs existing_ids rows
         else
           (case is_new_place pid existing_ids of
              (False, ids) \<Rightarrow> build_rows analyses bs ids rows
            | (True, ids) \<Rightarrow>
                (let a = (case analyses (Some pid) of
                            Some a \<Rightarrow> a
                          | None \<Rightarrow> default_analysis)
                 in build_rows analyses bs ids (rows @ [(pid, make_row b a)]))))"

definition fetch_events :: "world \<Rightarrow> entry \<Rightarrow> event list" where
  "fetch_events w b =
    (case e_website b of
       None \<Rightarrow> []
     | Some url \<Rightarrow>
         if url = [] then []
         else (case normalize_url w url of Inl e \<Rightarrow> [] | Inr u \<Rightarrow> [Fetch u]))"

definition process_businesses ::
  "world \<Rightarrow> business list \<Rightarrow> string option \<Rightarrow> string set
     \<Rightarrow> (string \<times> row) list \<times> string set \<times> event list" where
  "process_businesses w businesses api_key existing_ids =
    (let enriched = map (enrich w) businesses;
         detail_events = concat (map (\<lambda>b. [GetDetails (b_place_id b) api_key, Sleep PLACES_SLEEP]) businesses);
         uniq = businesses_unique enriched;
         analyses = collect_analyses w uniq Map.empty;
         (rows, ids) = build_rows analyses uniq existing_ids []
     in (rows, ids, detail_events @ concat (map (fetch_events w) uniq)))"

section \<open>Result store (lead_filter.py, load_existing_place_ids; leadgen.py, save_results)\<close>

text \<open>
  The persisted store is one CSV file. It is absent (\<open>Missing\<close>), or its bytes do not
  decode as UTF-8 (\<open>Undecodable\<close>), or it holds a table: a header and rows of cells.
  How a cell is written as text is not modelled, except through \<open>csv_text\<close>.

  The pandas operations \<open>save_results\<close> uses are modelled on tables as follows.
  \<open>DataFrame(rows)\<close> has the keys of the rows as columns, in order of first
  appearance. \<open>concat\<close> appends the rows and the new columns; a cell a row lacks is
  null. \<open>drop_duplicates\<close> keeps the first row of each combination of the key cells and
  raises \<open>KeyError\<close> when a key column is missing. \<open>sort_values\<close> raises \<open>KeyError\<close>
  when the column is missing, puts null cells last, orders numbers or text in descending
  order, and raises \<open>TypeError\<close> on a column that mixes them. The order among rows of
  equal score is not fixed by pandas: the model sorts stably after the environment has
  rearranged the rows (\<open>arranged\<close>, which ignores a \<open>shuffle\<close> that is no
  rearrangement), so that every descending order of the rows is the result for some
  environment. \<open>read_csv\<close> raises on an undecodable file and on a file without
  columns; otherwise it gives the header as stored and the rows as \<open>read_back\<close> types
  them.
\<close>

record frame =
  columns :: "string list"
  records :: "row list"

datatype store = Missing | Undecodable | Table frame

definition cell_of :: "row \<Rightarrow> string \<Rightarrow> cell" where
  "cell_of r c = (case map_of r c of Some v \<Rightarrow> v | None \<Rightarrow> CNone)"

definition add_cols :: "string list \<Rightarrow> string list \<Rightarrow> string list" where
  "add_cols cols new = cols @ filter (\<lambda>c. c \<notin> set cols) new"

definition DataFrame :: "row list \<Rightarrow> frame" where
  "DataFrame rows = \<lparr>columns = fold (\<lambda>r cols. add_cols cols (map fst r)) rows [], records = rows\<rparr>"

definition empty_frame :: frame where
  "empty_frame = \<lparr>columns = [], records = []\<rparr>"

definition is_empty :: "frame \<Rightarrow> bool" where
  "is_empty f = (columns f = [] \<or> records f = [])"

definition concat_frames :: "frame \<Rightarrow> frame \<Rightarrow> frame" where
  "concat_frames old new =
    \<lparr>columns = add_cols (columns old) (columns new), records = records old @ records new\<rparr>"

fun first_by :: "('a \<Rightarrow> 'k) \<Rightarrow> 'a list \<Rightarrow> 'k list \<Rightarrow> 'a list" where
  "first_by key [] seen = []"
| "first_by key (x # xs) seen =
    (if key x \<in> set seen then first_by key xs seen
     else x # first_by key xs (key x # seen))"

definition drop_duplicates :: "string list \<Rightarrow> frame \<Rightarrow> exn + frame" where
  "drop_duplicates keys f =
    (if list_all (\<lambda>c. c \<in> set (columns f)) keys
     then Inr (f\<lparr>records := first_by (\<lambda>r. map (cell_of r) keys) (records f) []\<rparr>)
     else Inl KeyError)"

fun is_num :: "cell \<Rightarrow> bool" where
  "is_num (CInt i) = True"
| "is_num (CFloat r) = True"
| "is_num (CBool b) = True"
| "is_num c = False"

fun num_val :: "cell \<Rightarrow> real" where
  "num_val (CInt i) = of_int i"
| "num_val (CFloat r) = r"
| "num_val (CBool b) = (if b then 1 else 0)"
| "num_val c = 0"

fun is_text :: "cell \<Rightarrow> bool" where
  "is_text (CStr s) = True"
| "is_text c = False"

fun text_val :: "cell \<Rightarrow> string" where
  "text_val (CStr s) = s"
| "text_val c = []"

definition arranged :: "world \<Rightarrow> row list \<Rightarrow> row list" where
  "arranged w xs = (let ys = shuffle w xs in if mset ys = mset xs then ys else xs)"

definition sort_desc :: "world \<Rightarrow> (row \<Rightarrow> 'k::linorder) \<Rightarrow> row list \<Rightarrow> row list" where
  "sort_desc w key xs = rev (sort_key key (rev (arranged w xs)))"

definition sort_values :: "world \<Rightarrow> string \<Rightarrow> frame \<Rightarrow> exn + frame" where
  "sort_values w col f =
    (if col \<notin> set (columns f) then Inl KeyError
     else
       let present = filter (\<lambda>r. cell_of r col \<noteq> CNone) (records f);
           missing = filter (\<lambda>r. cell_of r col = CNone) (records f)
       in if list_all (\<lambda>r. is_num (cell_of r col)) present
          then Inr (f\<lparr>records := sort_desc w (\<lambda>r. num_val (cell_of r col)) present @ missing\<rparr>)
          else if list_all (\<lambda>r. is_text (cell_of r col)) present
          then Inr (f\<lparr>records := sort_desc w (\<lambda>r. text_val (cell_of r col)) present @ missing\<rparr>)
          else Inl TypeError)"

fun path_exists :: "store \<Rightarrow> bool" where
  "path_exists Missing = False"
| "path_exists st = True"

fun read_csv :: "world \<Rightarrow> store \<Rightarrow> exn + frame" where
  "read_csv w (Table f) =
     (if columns f = [] then Inl EmptyDataError
      else Inr \<lparr>columns = columns f, records = read_back w (columns f) (records f)\<rparr>)"
| "read_csv w st = Inl UnicodeDecodeError"

definition to_csv :: "frame \<Rightarrow> store" where
  "to_csv f =
    Table \<lparr>columns = columns f,
           records = map (\<lambda>r. map (\<lambda>c. (c, cell_of r c)) (columns f)) (records f)\<rparr>"

fun load_existing_place_ids :: "(cell \<Rightarrow> string) \<Rightarrow> store \<Rightarrow> exn + string set" where
  "load_existing_place_ids txt Missing = Inr {}"
| "load_existing_place_ids txt Undecodable = Inl UnicodeDecodeError"
| "load_existing_place_ids txt (Table f) =
     Inr (if ''place_id'' \<in> set (columns f)
          then set (map (\<lambda>r. txt (cell_of r ''place_id'')) (records f))
          else {})"

definition save_results :: "world \<Rightarrow> row list \<Rightarrow> store \<Rightarrow> exn + store" where
  "save_results w rows st =
    (let df_new = DataFrame rows;
         save_new = (case sort_values w ''lead_score'' df_new of
                       Inl e \<Rightarrow> Inl e
                     | Inr d \<Rightarrow> Inr (to_csv d))
     in if path_exists st
        then (let df_old = (case read_csv w st of Inl e \<Rightarrow> empty_frame | Inr d \<Rightarrow> d) in
              if \<not> is_empty df_old
              then (let combined = concat_frames df_old df_new in
                    case (if ''website'' \<in> set (columns combined)
                          then drop_duplicates [''website'', ''business_name''] combined
                          else drop_duplicates [''business_name''] combined) of
                      Inl e \<Rightarrow> Inl e
                    | Inr combined \<Rightarrow>
                        (case sort_values w ''lead_score'' combined of
                           Inl e \<Rightarrow> Inl e
                         | Inr combined \<Rightarrow> Inr (to_csv combined)))
              else save_new)
        else save_new)"

section \<open>The program (leadgen.py, main)\<close>

text \<open>
  \<open>main\<close> reads the globals \<open>GOOGLE_API_KEY\<close> (the value of \<open>os.getenv\<close>, \<open>None\<close>
  when the variable is unset) and \<open>existing_place_ids\<close>; they are arguments here.
  \<open>program\<close> is what running the script does: the module-level call of
  \<open>load_existing_place_ids\<close>, then \<open>main\<close>. The outcome of a run is the exception that
  ended it, if any, the rows built, the store it leaves and its network trace; \<open>None\<close>
  is a run that never ends. \<open>runs\<close> is a sequence of runs on the same store.
\<close>

definition SEARCH_RADIUS :: int where "SEARCH_RADIUS = 50000"
definition KEYWORDS :: "string list" where "KEYWORDS = [''landscaping'', ''house cleaning'']"
definition LOCATION :: string where "LOCATION = ''39.9526,-75.1652''"

record outcome =
  o_error :: "exn option"
  o_rows :: "(string \<times> row) list"
  o_store :: store
  o_trace :: "event list"

definition main :: "world \<Rightarrow> string option \<Rightarrow> string set \<Rightarrow> store \<Rightarrow> outcome option" where
  "main w GOOGLE_API_KEY existing_place_ids st =
    (if GOOGLE_API_KEY = Some ''YOUR_GOOGLE_API_KEY''
     then Some \<lparr>o_error = None, o_rows = [], o_store = st, o_trace = []\<rparr>
     else
       case get_places (nearby_search w) LOCATION SEARCH_RADIUS KEYWORDS GOOGLE_API_KEY of
         None \<Rightarrow> None
       | Some (found, search_events) \<Rightarrow>
           if found = []
           then Some \<lparr>o_error = None, o_rows = [], o_store = st, o_trace = search_events\<rparr>
           else
             (case process_businesses w found GOOGLE_API_KEY existing_place_ids of
                (rows, ids, events) \<Rightarrow>
                  (case save_results w (map snd rows) st of
                     Inl e \<Rightarrow> Some \<lparr>o_error = Some e, o_rows = rows, o_store = st,
                                     o_trace = search_events @ events\<rparr>
                   | Inr st' \<Rightarrow> Some \<lparr>o_error = None, o_rows = rows, o_store = st',
                                      o_trace = search_events @ events\<rparr>)))"

definition program :: "world \<Rightarrow> string option \<Rightarrow> store \<Rightarrow> outcome option" where
  "program w GOOGLE_API_KEY st =
    (case load_existing_place_ids (csv_text w) st of
       Inl e \<Rightarrow> Some \<lparr>o_error = Some e, o_rows = [], o_store = st, o_trace = []\<rparr>
     | Inr existing_place_ids \<Rightarrow> main w GOOGLE_API_KEY existing_place_ids st)"

fun runs :: "world list \<Rightarrow> string option \<Rightarrow> store \<Rightarrow> outcome list option" where
  "runs [] key st = Some []"
| "runs (w # ws) key st =
    (case program w key st of
       None \<Rightarrow> None
     | Some out \<Rightarrow> map_option ((#) out) (runs ws key (o_store out)))"

text \<open>
  The rows and the header a store holds, and the keys of the dictionary
  \<open>process_businesses\<close> builds for a row (\<open>make_row\<close>).
\<close>

fun stored_rows :: "store \<Rightarrow> row list" where
  "stored_rows (Table f) = records f"
| "stored_rows st = []"

fun store_columns :: "store \<Rightarrow> string list" where
  "store_columns (Table f) = columns f"
| "store_columns st = []"

definition row_keys :: "string list" where
  "row_keys =
     [''business_name'', ''address'', ''phone_google'', ''phone_website'', ''email'', ''website'',
      ''rating'', ''user_ratings_total'', ''https'', ''has_viewport'', ''html_length'', ''lead_score'']"

section \<open>Example inputs\<close>

text \<open>
  Concrete environments and inputs at which the statements below are evaluated:
  upstreams that send two tokens and then none, that fail on the first request and
  that fail on the first re-query; \<open>offline\<close>, where every website request fails;
  \<open>denied\<close>, where every search comes back empty; and \<open>town\<close>, whose search returns
  the one place \<open>p1\<close> under a given name. In these environments a stored table is read
  back as written and the sort visits the rows in the order given.
\<close>

definition three_pages :: "nat \<Rightarrow> response" where
  "three_pages n =
     (if n = 0 then Page [] (Some ''T1'')
      else if n = 1 then Page [] (Some ''T2'')
      else Page [] None)"

definition fails_first :: "nat \<Rightarrow> response" where
  "fails_first n = (if n = 0 then Failed else Page [] None)"

definition fails_second :: "nat \<Rightarrow> response" where
  "fails_second n =
     (if n = 0 then Page [] (Some ''T1'')
      else if n = 1 then Failed
      else Page [] None)"

definition start :: gstate where
  "start = \<lparr>places = [], sent = 0, trace = []\<rparr>"

definition offline :: world where
  "offline =
    \<lparr>nearby_search = (\<lambda>n. Failed), place_details = (\<lambda>p. None),
     urlparse_scheme = (\<lambda>u. Inr (if startswith u ''https:'' then ''https'' else [])),
     http_get = (\<lambda>u. Inl ''timeout''),
     parse_page = (\<lambda>h. Inl ''unused''), py_len = length, csv_text = (\<lambda>c. []),
     read_back = (\<lambda>cols rows. rows), shuffle = (\<lambda>rows. rows)\<rparr>"

definition blank_entry :: "string option \<Rightarrow> string \<Rightarrow> entry" where
  "blank_entry nm pid =
    \<lparr>e_business_name = nm, e_place_id = Some pid, e_address = None, e_phone_google = None,
     e_website = None, e_rating = None, e_user_ratings_total = None\<rparr>"

definition denied :: world where
  "denied =
    \<lparr>nearby_search = (\<lambda>n. Page [] None), place_details = (\<lambda>p. None),
     urlparse_scheme = (\<lambda>u. Inr []), http_get = (\<lambda>u. Inl ''unreachable''),
     parse_page = (\<lambda>h. Inl ''unused''), py_len = length, csv_text = text_val,
     read_back = (\<lambda>cols rows. rows), shuffle = (\<lambda>rows. rows)\<rparr>"

definition place_p1 :: "string \<Rightarrow> place" where
  "place_p1 nm =
    \<lparr>p_name = Some nm, p_place_id = Some ''p1'', p_rating = Some 3, p_user_ratings_total = Some 5,
     p_vicinity = Some ''1 Main St'', p_formatted_address = None\<rparr>"

definition town :: "string \<Rightarrow> world" where
  "town nm =
    \<lparr>nearby_search = (\<lambda>n. if n = 0 then Page [place_p1 nm] None else Page [] None),
     place_details = (\<lambda>p. Some \<lparr>d_website = None, d_phone_google = None, d_address = None\<rparr>),
     urlparse_scheme = (\<lambda>u. Inr []),
     http_get = (\<lambda>u. Inl ''unreachable''),
     parse_page = (\<lambda>h. Inl ''unused''),
     py_len = length, csv_text = text_val,
     read_back = (\<lambda>cols rows. rows), shuffle = (\<lambda>rows. rows)\<rparr>"

section \<open>Properties of the scorer\<close>

lemma score_lead_points:
  "score_lead True https vp len emails cta rating cnt =
     (if https then 0 else 5) + (if vp then 0 else 3) + below_points 5000 3 len
     + (if emails = [] then 2 else 0) + (if cta then 0 else 2)
     + below_points 4.5 1 rating + below_points 15 1 cnt"
  by (cases len; cases rating; cases cnt) (simp_all add: score_lead_def Let_def)

text \<open>
  C2. For every input the score is 10 when there is no website, with no other
  contribution; otherwise it is the sum of 5 if not HTTPS, 3 if no viewport meta, 3 if
  the page length is below 5000 or unavailable, 2 if no emails, 2 if no call-to-action
  keyword, 1 if the rating is missing, unparseable or below 4.5, and 1 if the review
  count is missing, unparseable or below 15. The score never exceeds 17.
\<close>

theorem score_lead_formula:
  "score_lead hw https vp len emails cta rating cnt =
     (if \<not> hw then 10
      else (if \<not> https then 5 else 0)
         + (if \<not> vp then 3 else 0)
         + (if len = NoneV \<or> len = Raises \<or> (\<exists>n. len = Conv n \<and> n < 5000) then 3 else 0)
         + (if emails = [] then 2 else 0)
         + (if \<not> cta then 2 else 0)
         + (if rating = NoneV \<or> rating = Raises \<or> (\<exists>r. rating = Conv r \<and> r < 4.5) then 1 else 0)
         + (if cnt = NoneV \<or> cnt = Raises \<or> (\<exists>c. cnt = Conv c \<and> c < 15) then 1 else 0))
   \<and> score_lead hw https vp len emails cta rating cnt \<le> 17"
  by (cases len; cases rating; cases cnt) (simp_all add: score_lead_def Let_def)

text \<open>
  C3. Website present, not HTTPS, no viewport meta, page length 800, one email found,
  no call-to-action keyword, rating 3.0 and 5 reviews give the score 15.
\<close>

theorem score_lead_end_to_end:
  "score_lead True False False (Conv 800) [''contact@example.com''] False (Conv 3.0) (Conv 5) = 15"
  by (simp add: score_lead_def)

text \<open>
  C4. With a website, turning one signal from its good value to its bad value, all
  other arguments unchanged, never lowers the score: HTTPS to no HTTPS, viewport to no
  viewport, a page of at least 5000 characters to a shorter or unavailable one, some
  email to none, a call-to-action keyword to none, a rating of at least 4.5 to a lower or
  missing one, at least 15 reviews to fewer or a missing count. Without a website the
  score is 10 whatever the other arguments are.
\<close>

theorem score_lead_monotone:
  "score_lead True True vp len emails cta rating cnt
     \<le> score_lead True False vp len emails cta rating cnt
   \<and> score_lead True https True len emails cta rating cnt
     \<le> score_lead True https False len emails cta rating cnt
   \<and> (5000 \<le> n \<and> (len' = NoneV \<or> len' = Raises \<or> (\<exists>m. len' = Conv m \<and> m < 5000)) \<longrightarrow>
        score_lead True https vp (Conv n) emails cta rating cnt
        \<le> score_lead True https vp len' emails cta rating cnt)
   \<and> (emails \<noteq> [] \<longrightarrow>
        score_lead True https vp len emails cta rating cnt
        \<le> score_lead True https vp len [] cta rating cnt)
   \<and> score_lead True https vp len emails True rating cnt
     \<le> score_lead True https vp len emails False rating cnt
   \<and> (4.5 \<le> r \<and> (rating' = NoneV \<or> rating' = Raises \<or> (\<exists>q. rating' = Conv q \<and> q < 4.5)) \<longrightarrow>
        score_lead True https vp len emails cta (Conv r) cnt
        \<le> score_lead True https vp len emails cta rating' cnt)
   \<and> (15 \<le> c \<and> (cnt' = NoneV \<or> cnt' = Raises \<or> (\<exists>d. cnt' = Conv d \<and> d < 15)) \<longrightarrow>
        score_lead True https vp len emails cta rating (Conv c)
        \<le> score_lead True https vp len emails cta rating cnt')
   \<and> score_lead False https vp len emails cta rating cnt = 10"
proof (intro conjI impI)
  show "score_lead True True vp len emails cta rating cnt
          \<le> score_lead True False vp len emails cta rating cnt"
    by (simp add: score_lead_points)
  show "score_lead True https True len emails cta rating cnt
          \<le> score_lead True https False len emails cta rating cnt"
    by (simp add: score_lead_points)
  show "score_lead True https vp (Conv n) emails cta rating cnt
          \<le> score_lead True https vp len' emails cta rating cnt"
    if "5000 \<le> n \<and> (len' = NoneV \<or> len' = Raises \<or> (\<exists>m. len' = Conv m \<and> m < 5000))"
    using that by (cases len') (simp_all add: score_lead_points)
  show "score_lead True https vp len emails cta rating cnt
          \<le> score_lead True https vp len [] cta rating cnt"
    by (simp add: score_lead_points)
  show "score_lead True https vp len emails True rating cnt
          \<le> score_lead True https vp len emails False rating cnt"
    by (simp add: score_lead_points)
  show "score_lead True https vp len emails cta (Conv r) cnt
          \<le> score_lead True https vp len emails cta rating' cnt"
    if "4.5 \<le> r \<and> (rating' = NoneV \<or> rating' = Raises \<or> (\<exists>q. rating' = Conv q \<and> q < 4.5))"
    using that by (cases rating') (simp_all add: score_lead_points)
  show "score_lead True https vp len emails cta rating (Conv c)
          \<le> score_lead True https vp len emails cta rating cnt'"
    if "15 \<le> c \<and> (cnt' = NoneV \<or> cnt' = Raises \<or> (\<exists>d. cnt' = Conv d \<and> d < 15))"
    using that by (cases cnt') (simp_all add: score_lead_points)
  show "score_lead False https vp len emails cta rating cnt = 10"
    by (simp add: score_lead_def)
qed

theorem score_lead_monotone_witness:
  "(5000::int) \<le> 6000 \<and> [''a@b.org''] \<noteq> [] \<and> (4.5::real) \<le> 4.8 \<and> (15::int) \<le> 40
   \<and> score_lead True True True (Conv 6000) [''a@b.org''] True (Conv 4.8) (Conv 40)
     \<le> score_lead True True True (Conv 120) [''a@b.org''] True (Conv 4.8) (Conv 40)
   \<and> score_lead True True True (Conv 6000) [''a@b.org''] True (Conv 4.8) (Conv 40)
     \<le> score_lead True True True (Conv 6000) [] True (Conv 4.8) (Conv 40)
   \<and> score_lead True True True (Conv 6000) [''a@b.org''] True (Conv 4.8) (Conv 40)
     \<le> score_lead True True True (Conv 6000) [''a@b.org''] True NoneV (Conv 40)
   \<and> score_lead True True True (Conv 6000) [''a@b.org''] True (Conv 4.8) (Conv 40)
     \<le> score_lead True True True (Conv 6000) [''a@b.org''] True (Conv 4.8) (Conv 3)"
  using score_lead_monotone [where vp = True and len = "Conv 6000" and emails = "[''a@b.org'']"
          and cta = True and rating = "Conv 4.8" and cnt = "Conv 40" and https = True
          and n = 6000 and len' = "Conv 120" and r = "4.8" and rating' = NoneV
          and c = 40 and cnt' = "Conv 3"]
  by simp

section \<open>Properties of the duplicate filter\<close>

text \<open>
  C9. For every set and place id, the claim operation answers true exactly when the id
  was absent from the set, and then the set afterwards is the set with the id inserted;
  when the id was present it answers false and the set is unchanged.
\<close>

theorem is_new_place_claims:
  "fst (is_new_place p S) = (p \<notin> S)
   \<and> (p \<notin> S \<longrightarrow> snd (is_new_place p S) = insert p S)
   \<and> (p \<in> S \<longrightarrow> snd (is_new_place p S) = S)"
  by (simp add: is_new_place_def)

theorem is_new_place_claims_witness:
  "''b'' \<notin> {''a''} \<and> is_new_place ''b'' {''a''} = (True, {''b'', ''a''})
   \<and> ''a'' \<in> {''a''} \<and> is_new_place ''a'' {''a''} = (False, {''a''})"
  using is_new_place_claims [of "''b''" "{''a''}"] is_new_place_claims [of "''a''" "{''a''}"]
  by (simp add: prod_eq_iff)

section \<open>Properties of the pagination loop\<close>

lemma delays_append: "delays (xs @ ys) = delays xs + delays ys"
  by (induction xs rule: delays.induct) simp_all

lemma delays_requeries: "delays (requeries upstream api_key n k) = k"
  by (induction k arbitrary: n) simp_all

lemma page_loop_returns:
  "stops (upstream (sent s + k)) \<Longrightarrow> \<forall>j<k. \<not> stops (upstream (sent s + j)) \<Longrightarrow>
   \<exists>s'. page_loop upstream api_key params s = Some s' \<and> sent s' = sent s + Suc k
        \<and> trace s' = trace s @ Get params # requeries upstream api_key (sent s) k"
proof (induction k arbitrary: s params)
  case 0
  then show ?case
    by (cases "upstream (sent s)")
       (auto simp: page_loop.simps [of upstream api_key params s] truthy_def Let_def
             split: option.splits)
next
  case (Suc k)
  from Suc.prems(2) have "\<not> stops (upstream (sent s))"
    by (metis add.right_neutral zero_less_Suc)
  then obtain results tok where up: "upstream (sent s) = Page results (Some tok)" and tok: "tok \<noteq> []"
    by (cases "upstream (sent s)") (auto simp: truthy_def split: option.splits)
  define s1 where "s1 = s\<lparr>places := add_results results (places s), sent := Suc (sent s),
                      trace := trace s @ [Get params, Sleep PLACES_SLEEP]\<rparr>"
  have step: "page_loop upstream api_key params s = page_loop upstream api_key (PageToken tok api_key) s1"
    by (subst page_loop.simps) (simp add: up tok s1_def Let_def)
  have a: "stops (upstream (sent s1 + k))" using Suc.prems(1) by (simp add: s1_def)
  have b: "\<forall>j<k. \<not> stops (upstream (sent s1 + j))"
    using Suc.prems(2) by (auto simp: s1_def dest: spec [of _ "Suc _"])
  from Suc.IH [OF a b, of "PageToken tok api_key"] show ?case
    by (auto simp: step s1_def up)
qed

lemma page_loop_Some_stops:
  assumes "page_loop upstream api_key params s = Some r"
  shows "\<exists>n. stops (upstream n)"
proof (rule page_loop.raw_induct [where P = "\<lambda>up key ps st res. \<exists>n. stops (up n)", OF _ assms])
  fix f up key ps st res
  assume IH: "\<And>up' key' ps' st' res'. f up' key' ps' st' = Some res' \<Longrightarrow> \<exists>n. stops (up' n)"
    and body: "(case up (sent st) of
        Failed \<Rightarrow> Some (st\<lparr>sent := Suc (sent st), trace := trace st @ [Get ps]\<rparr>)
      | Page results next_token \<Rightarrow>
          (let s' = st\<lparr>places := add_results results (places st), sent := Suc (sent st),
                        trace := trace st @ [Get ps]\<rparr>
           in case next_token of
                None \<Rightarrow> Some s'
              | Some tok \<Rightarrow>
                  if tok = [] then Some s'
                  else f up key (PageToken tok key)
                         (s'\<lparr>trace := trace s' @ [Sleep PLACES_SLEEP]\<rparr>))) = Some res"
  show "\<exists>n. stops (up n)"
  proof (cases "stops (up (sent st))")
    case True
    then show ?thesis by blast
  next
    case False
    then obtain results tok where up: "up (sent st) = Page results (Some tok)" and tok: "tok \<noteq> []"
      by (cases "up (sent st)") (auto simp: truthy_def split: option.splits)
    from body up tok obtain s1 where "f up key (PageToken tok key) s1 = Some res"
      by (simp add: Let_def)
    then show ?thesis by (rule IH)
  qed
qed

lemma page_loop_endless:
  "\<forall>n. \<not> stops (upstream n) \<Longrightarrow> page_loop upstream api_key params s = None"
  using page_loop_Some_stops [of upstream api_key params s] by (cases "page_loop upstream api_key params s") auto

lemma keyword_loop_returns:
  assumes "\<forall>n. \<exists>k. stops (upstream (n + k))"
  shows "\<exists>s'. keyword_loop upstream location radius api_key kws s = Some s'"
proof (induction kws arbitrary: s)
  case Nil
  then show ?case by simp
next
  case (Cons kw kws)
  define k where "k = (LEAST k. stops (upstream (sent s + k)))"
  from assms have "\<exists>k. stops (upstream (sent s + k))" by blast
  then have a: "stops (upstream (sent s + k))"
    unfolding k_def by (rule LeastI_ex)
  have b: "\<forall>j<k. \<not> stops (upstream (sent s + j))"
    unfolding k_def using not_less_Least by blast
  from page_loop_returns [OF a b, of api_key "Nearby location radius kw api_key"]
  obtain s1 where "page_loop upstream api_key (Nearby location radius kw api_key) s = Some s1"
    by blast
  with Cons.IH [of s1] show ?case by simp
qed

text \<open>
  C7. For every keyword, the pagination loop stops when a response carries no
  continuation token or when a request fails: if the response to the \<open>k\<close>-th request
  of the chain is the first such response, the loop returns after exactly \<open>k\<close>
  re-queries, each one a request with the token of the page before it and each one
  directly preceded by the fixed delay. With tokens T1, T2 and then none, that is two
  delayed re-queries. A failed request, the first of the chain or a later re-query,
  ends the chain of its keyword only: the search goes on with the remaining keywords
  from the state the chain has reached.
\<close>

theorem page_loop_terminates:
  "stops (upstream (sent s + k)) \<and> (\<forall>j<k. \<not> stops (upstream (sent s + j))) \<longrightarrow>
      (\<exists>s'. page_loop upstream api_key params s = Some s'
          \<and> sent s' = sent s + Suc k
          \<and> trace s' = trace s @ Get params # requeries upstream api_key (sent s) k
          \<and> delays (trace s') = delays (trace s) + k)
    \<and> (\<exists>s'. page_loop upstream api_key (Nearby location radius kw api_key) s = Some s'
          \<and> keyword_loop upstream location radius api_key (kw # kws) s =
              keyword_loop upstream location radius api_key kws s')"
proof (intro impI conjI)
  assume h: "stops (upstream (sent s + k)) \<and> (\<forall>j<k. \<not> stops (upstream (sent s + j)))"
  then obtain s' where s': "page_loop upstream api_key params s = Some s'"
      "sent s' = sent s + Suc k"
      "trace s' = trace s @ Get params # requeries upstream api_key (sent s) k"
    using page_loop_returns [of upstream s k api_key params] by blast
  then have "delays (trace s') = delays (trace s) + k"
    by (simp add: delays_append delays_requeries)
  with s' show "\<exists>s'. page_loop upstream api_key params s = Some s'
          \<and> sent s' = sent s + Suc k
          \<and> trace s' = trace s @ Get params # requeries upstream api_key (sent s) k
          \<and> delays (trace s') = delays (trace s) + k"
    by blast
  from h obtain s1 where "page_loop upstream api_key (Nearby location radius kw api_key) s = Some s1"
    using page_loop_returns [of upstream s k api_key "Nearby location radius kw api_key"] by blast
  then show "\<exists>s'. page_loop upstream api_key (Nearby location radius kw api_key) s = Some s'
          \<and> keyword_loop upstream location radius api_key (kw # kws) s =
              keyword_loop upstream location radius api_key kws s'"
    by simp
qed

theorem page_loop_terminates_witness:
  "stops (three_pages 2) \<and> \<not> stops (three_pages 0) \<and> \<not> stops (three_pages 1)
   \<and> (\<exists>s'. page_loop three_pages (Some ''k'') (Nearby ''1,2'' 50000 ''landscaping'' (Some ''k'')) start = Some s'
          \<and> sent s' = 3
          \<and> trace s' = [Get (Nearby ''1,2'' 50000 ''landscaping'' (Some ''k'')),
                         Sleep 2, Get (PageToken ''T1'' (Some ''k'')),
                         Sleep 2, Get (PageToken ''T2'' (Some ''k''))]
          \<and> delays (trace s') = 2)
   \<and> stops (fails_second 1) \<and> \<not> stops (fails_second 0)
   \<and> map_option trace (keyword_loop fails_second ''1,2'' 50000 (Some ''k'') [''a'', ''b''] start)
       = Some [Get (Nearby ''1,2'' 50000 ''a'' (Some ''k'')),
               Sleep 2, Get (PageToken ''T1'' (Some ''k'')),
               Get (Nearby ''1,2'' 50000 ''b'' (Some ''k''))]
   \<and> stops (fails_first 0)
   \<and> map_option trace (keyword_loop fails_first ''1,2'' 50000 (Some ''k'') [''a'', ''b''] start)
       = Some [Get (Nearby ''1,2'' 50000 ''a'' (Some ''k'')), Get (Nearby ''1,2'' 50000 ''b'' (Some ''k''))]"
proof -
  have a: "stops (three_pages 2)" "\<not> stops (three_pages 0)" "\<not> stops (three_pages 1)"
    by (simp_all add: three_pages_def truthy_def)
  have b: "stops (three_pages (sent start + 2)) \<and> (\<forall>j<2. \<not> stops (three_pages (sent start + j)))"
    using a by (simp add: start_def less_Suc_eq numeral_2_eq_2)
  have r: "requeries three_pages (Some ''k'') 0 2 =
            [Sleep 2, Get (PageToken ''T1'' (Some ''k'')), Sleep 2, Get (PageToken ''T2'' (Some ''k''))]"
    by (simp add: numeral_2_eq_2 three_pages_def PLACES_SLEEP_def)
  note t = page_loop_terminates [where upstream = three_pages and s = start and k = 2
             and api_key = "Some ''k''" and params = "Nearby ''1,2'' 50000 ''landscaping'' (Some ''k'')"
             and location = "''1,2''" and radius = 50000 and kw = "''a''" and kws = "[''b'']"]
  from t b obtain s' where s':
      "page_loop three_pages (Some ''k'') (Nearby ''1,2'' 50000 ''landscaping'' (Some ''k'')) start = Some s'"
      "sent s' = sent start + Suc 2"
      "trace s' = trace start @ Get (Nearby ''1,2'' 50000 ''landscaping'' (Some ''k''))
                    # requeries three_pages (Some ''k'') (sent start) 2"
      "delays (trace s') = delays (trace start) + 2"
    by blast
  have "sent s' = 3" using s'(2) by (simp add: start_def)
  moreover have "trace s' = [Get (Nearby ''1,2'' 50000 ''landscaping'' (Some ''k'')),
                         Sleep 2, Get (PageToken ''T1'' (Some ''k'')),
                         Sleep 2, Get (PageToken ''T2'' (Some ''k''))]"
    using s'(3) r by (simp add: start_def)
  moreover have "delays (trace s') = 2" using s'(4) by (simp add: start_def)
  ultimately have first: "\<exists>s'. page_loop three_pages (Some ''k'') (Nearby ''1,2'' 50000 ''landscaping'' (Some ''k'')) start = Some s'
          \<and> sent s' = 3
          \<and> trace s' = [Get (Nearby ''1,2'' 50000 ''landscaping'' (Some ''k'')),
                         Sleep 2, Get (PageToken ''T1'' (Some ''k'')),
                         Sleep 2, Get (PageToken ''T2'' (Some ''k''))]
          \<and> delays (trace s') = 2"
    using s'(1) by blast
  have c: "stops (fails_second 1)" "\<not> stops (fails_second 0)"
    by (simp_all add: fails_second_def truthy_def)
  have c': "stops (fails_second (sent start + 1)) \<and> (\<forall>j<1. \<not> stops (fails_second (sent start + j)))"
    using c by (simp add: start_def)
  note u = page_loop_terminates [where upstream = fails_second and s = start and k = 1
             and api_key = "Some ''k''" and params = "Nearby ''1,2'' 50000 ''a'' (Some ''k'')"
             and location = "''1,2''" and radius = 50000 and kw = "''a''" and kws = "[''b'']"]
  from u c' obtain s2 where s2:
      "page_loop fails_second (Some ''k'') (Nearby ''1,2'' 50000 ''a'' (Some ''k'')) start = Some s2"
      "sent s2 = sent start + Suc 1"
      "trace s2 = trace start @ Get (Nearby ''1,2'' 50000 ''a'' (Some ''k''))
                    # requeries fails_second (Some ''k'') (sent start) 1"
      "keyword_loop fails_second ''1,2'' 50000 (Some ''k'') (''a'' # [''b'']) start =
         keyword_loop fails_second ''1,2'' 50000 (Some ''k'') [''b''] s2"
    by auto
  have s2': "sent s2 = 2" "trace s2 = [Get (Nearby ''1,2'' 50000 ''a'' (Some ''k'')),
               Sleep 2, Get (PageToken ''T1'' (Some ''k''))]"
    using s2(2,3) by (simp_all add: start_def fails_second_def PLACES_SLEEP_def)
  have d: "map_option trace (keyword_loop fails_second ''1,2'' 50000 (Some ''k'') [''a'', ''b''] start)
       = Some [Get (Nearby ''1,2'' 50000 ''a'' (Some ''k'')),
               Sleep 2, Get (PageToken ''T1'' (Some ''k'')),
               Get (Nearby ''1,2'' 50000 ''b'' (Some ''k''))]"
    using s2(4) s2' by (simp add: page_loop.simps [of fails_second _ _ s2] fails_second_def)
  have e: "stops (fails_first 0)" by (simp add: fails_first_def)
  then have e': "stops (fails_first (sent start + 0)) \<and> (\<forall>j<0. \<not> stops (fails_first (sent start + j)))"
    by (simp add: start_def)
  note v = page_loop_terminates [where upstream = fails_first and s = start and k = 0
             and api_key = "Some ''k''" and params = "Nearby ''1,2'' 50000 ''a'' (Some ''k'')"
             and location = "''1,2''" and radius = 50000 and kw = "''a''" and kws = "[''b'']"]
  from v e' obtain s3 where s3:
      "sent s3 = sent start + Suc 0"
      "trace s3 = trace start @ Get (Nearby ''1,2'' 50000 ''a'' (Some ''k''))
                    # requeries fails_first (Some ''k'') (sent start) 0"
      "keyword_loop fails_first ''1,2'' 50000 (Some ''k'') (''a'' # [''b'']) start =
         keyword_loop fails_first ''1,2'' 50000 (Some ''k'') [''b''] s3"
    by auto
  have s3': "sent s3 = 1" "trace s3 = [Get (Nearby ''1,2'' 50000 ''a'' (Some ''k''))]"
    using s3(1,2) by (simp_all add: start_def)
  have f: "map_option trace (keyword_loop fails_first ''1,2'' 50000 (Some ''k'') [''a'', ''b''] start)
       = Some [Get (Nearby ''1,2'' 50000 ''a'' (Some ''k'')), Get (Nearby ''1,2'' 50000 ''b'' (Some ''k''))]"
    using s3(3) s3' by (simp add: page_loop.simps [of fails_first _ _ s3] fails_first_def)
  from a first c d e f show ?thesis by blast
qed

section \<open>Properties of the program\<close>

lemma main_placeholder_key:
  "main w (Some ''YOUR_GOOGLE_API_KEY'') ids st
     = Some \<lparr>o_error = None, o_rows = [], o_store = st, o_trace = []\<rparr>"
  by (simp add: main_def)

text \<open>
  C6. A missing API credential is to abort the run before any network activity. The
  run below has no credential (\<open>GOOGLE_API_KEY\<close> is unset, so \<open>os.getenv\<close> gives
  \<open>None\<close>) and an upstream that answers every search with an empty page: the guard of
  \<open>main\<close>, which compares the key with a placeholder string, lets it pass, and one
  search request per keyword is sent.
\<close>

theorem program_without_key:
  "map_option o_trace (program denied None Missing)
     = Some [Get (Nearby LOCATION SEARCH_RADIUS ''landscaping'' None),
             Get (Nearby LOCATION SEARCH_RADIUS ''house cleaning'' None)]"
  by (simp add: program_def main_def get_places_def denied_def KEYWORDS_def page_loop.simps)

section \<open>Properties of the contact extractor\<close>

lemma normalize_offline:
  "normalize_url offline ''example.com'' = Inr ''http://example.com''"
  "normalize_url offline ''https://example.com'' = Inr ''https://example.com''"
  by (simp_all add: normalize_url_def offline_def startswith_def)

lemma offline_get: "http_get offline u = Inl ''timeout''"
  by (simp add: offline_def)

text \<open>
  C5, as the code has it. For every URL for which the page is requested and the request
  fails, \<open>analyze_website\<close> returns, and does not raise, a result whose error field is
  set and whose email and phone lists are empty, page length 0 and viewport, title and
  call-to-action flags false. The HTTPS flag is not reset: it is computed from the
  normalised URL before the request and is true when that URL starts with
  \<open>https://\<close>.
\<close>

theorem analyze_website_fetch_failure:
  "url \<noteq> [] \<and> normalize_url w url = Inr u \<and> http_get w u = Inl e \<longrightarrow>
     analyze_website w url =
       Inr \<lparr>a_emails = [], a_phones_website = [],
            a_https = startswith (lower u) ''https://'',
            a_has_viewport = False, a_html_length = 0, a_has_title = False,
            a_has_cta = False, a_error = Some e\<rparr>"
  by (simp add: analyze_website_def default_analysis_def)

theorem analyze_website_fetch_failure_witness:
  "''example.com'' \<noteq> [] \<and> normalize_url offline ''example.com'' = Inr ''http://example.com''
   \<and> http_get offline ''http://example.com'' = Inl ''timeout''
   \<and> analyze_website offline ''example.com'' =
       Inr \<lparr>a_emails = [], a_phones_website = [], a_https = False,
            a_has_viewport = False, a_html_length = 0, a_has_title = False,
            a_has_cta = False, a_error = Some ''timeout''\<rparr>"
proof -
  have h: "http_get offline ''http://example.com'' = Inl ''timeout''"
    by (simp add: offline_def)
  have l: "startswith (lower ''http://example.com'') ''https://'' = False"
    by (simp add: startswith_def lower_def lower_char_def)
  from analyze_website_fetch_failure [of "''example.com''" offline "''http://example.com''" "''timeout''"]
       normalize_offline(1) h l
  show ?thesis by simp
qed

text \<open>
  C5 as stated says every field but the error is at its default after a failed fetch.
  For an \<open>https\<close> URL the HTTPS flag is true although the fetch failed.
\<close>

theorem analyze_website_https_counterexample:
  "http_get offline ''https://example.com'' = Inl ''timeout''
   \<and> analyze_website offline ''https://example.com'' =
       Inr \<lparr>a_emails = [], a_phones_website = [], a_https = True,
            a_has_viewport = False, a_html_length = 0, a_has_title = False,
            a_has_cta = False, a_error = Some ''timeout''\<rparr>
   \<and> analyze_website offline ''https://example.com''
       \<noteq> Inr (default_analysis\<lparr>a_error := Some ''timeout''\<rparr>)"
  by (simp add: analyze_website_def normalize_offline default_analysis_def offline_get
        startswith_def lower_def lower_char_def)

section \<open>Properties of the in-batch deduplication\<close>

lemma first_by_seen_set:
  "set s1 = set s2 \<Longrightarrow> first_by f xs s1 = first_by f xs s2"
proof (induction xs arbitrary: s1 s2)
  case Nil
  then show ?case by simp
next
  case (Cons x xs)
  from Cons.prems have "set (f x # s1) = set (f x # s2)" by simp
  then have "first_by f xs (f x # s1) = first_by f xs (f x # s2)" by (rule Cons.IH)
  moreover have "first_by f xs s1 = first_by f xs s2" using Cons.prems by (rule Cons.IH)
  ultimately show ?case using Cons.prems by simp
qed

lemma dedup_loop_first_by:
  "map snd (dedup_loop es u) = map snd u @ first_by dedup_key es (map fst u)"
proof (induction es arbitrary: u)
  case Nil
  then show ?case by simp
next
  case (Cons e es)
  show ?case
  proof (cases "dedup_key e \<in> fst ` set u")
    case True
    then show ?thesis using Cons.IH [of u] by (simp add: Let_def)
  next
    case False
    have "first_by dedup_key es (map fst u @ [dedup_key e]) = first_by dedup_key es (dedup_key e # map fst u)"
      by (rule first_by_seen_set) simp
    then show ?thesis using False Cons.IH [of "u @ [(dedup_key e, e)]"] by (simp add: Let_def)
  qed
qed

lemma businesses_unique_first_by:
  "businesses_unique es = first_by dedup_key es []"
  by (simp add: businesses_unique_def dedup_loop_first_by)

lemma first_by_keys:
  "distinct (map f (first_by f xs seen)) \<and> f ` set (first_by f xs seen) \<inter> set seen = {}"
proof (induction xs arbitrary: seen)
  case Nil
  then show ?case by simp
next
  case (Cons x xs)
  show ?case
  proof (cases "f x \<in> set seen")
    case True
    then show ?thesis using Cons.IH [of seen] by simp
  next
    case False
    then show ?thesis using Cons.IH [of "f x # seen"] by auto
  qed
qed

lemma first_by_subset: "set (first_by f xs seen) \<subseteq> set xs"
  by (induction xs arbitrary: seen) auto

lemma first_by_first:
  "x \<in> set (first_by f xs seen) \<Longrightarrow> find (\<lambda>y. f y = f x) xs = Some x"
proof (induction xs arbitrary: seen)
  case Nil
  then show ?case by simp
next
  case (Cons a xs)
  show ?case
  proof (cases "f a \<in> set seen")
    case True
    with Cons.prems have mem: "x \<in> set (first_by f xs seen)" by simp
    then have "f x \<in> f ` set (first_by f xs seen)" by (rule imageI)
    then have "f x \<notin> set seen" using first_by_keys [of f xs seen] by blast
    with True have "f a \<noteq> f x" by auto
    with Cons.IH [OF mem] show ?thesis by simp
  next
    case False
    with Cons.prems consider "x = a" | "x \<in> set (first_by f xs (f a # seen))" by auto
    then show ?thesis
    proof cases
      case 1
      then show ?thesis by simp
    next
      case 2
      then have "f x \<in> f ` set (first_by f xs (f a # seen))" by (rule imageI)
      then have "f x \<notin> set (f a # seen)" using first_by_keys [of f xs "f a # seen"] by blast
      then have "f a \<noteq> f x" by auto
      with Cons.IH [OF 2] show ?thesis by simp
    qed
  qed
qed

lemma distinct_map_filter_le_one:
  "distinct (map f xs) \<Longrightarrow> (\<And>x. P x \<Longrightarrow> f x = k) \<Longrightarrow> length (filter P xs) \<le> 1"
proof (induction xs)
  case Nil
  then show ?case by simp
next
  case (Cons x xs)
  show ?case
  proof (cases "P x")
    case True
    then have "f x = k" by (rule Cons.prems(2))
    have "filter P xs = []"
    proof (rule ccontr)
      assume "filter P xs \<noteq> []"
      then obtain y where "y \<in> set xs" "P y" by (auto simp: filter_empty_conv)
      then have "f y = k" "f y \<in> f ` set xs" using Cons.prems(2) by auto
      with \<open>f x = k\<close> Cons.prems(1) show False by auto
    qed
    then show ?thesis using True by simp
  next
    case False
    then show ?thesis using Cons by simp
  qed
qed

lemma dedup_key_no_website:
  "\<not> truthy (e_website e) \<Longrightarrow> dedup_key e = e_business_name e"
  by (simp add: dedup_key_def py_or_def)

text \<open>
  C10, as the code has it. An empty-string website is treated as an absent one: the
  key is then the business name. The entries that survive the deduplication have
  pairwise different keys, and each survivor is the first entry of the batch with its
  key. Of the entries with neither website nor name, the key is \<open>None\<close> when the name
  is absent and the empty string when the name is the empty string, so at most one of
  each kind survives, at most two in all.
\<close>

theorem businesses_unique_blank:
  "(e_website e = None \<or> e_website e = Some [] \<longrightarrow> dedup_key e = e_business_name e)
   \<and> distinct (map dedup_key (businesses_unique es))
   \<and> length (filter (\<lambda>x. \<not> truthy (e_website x) \<and> e_business_name x = None) (businesses_unique es)) \<le> 1
   \<and> length (filter (\<lambda>x. \<not> truthy (e_website x) \<and> e_business_name x = Some []) (businesses_unique es)) \<le> 1
   \<and> length (filter (\<lambda>x. \<not> truthy (e_website x) \<and> \<not> truthy (e_business_name x)) (businesses_unique es)) \<le> 2
   \<and> (x \<in> set (businesses_unique es) \<longrightarrow> find (\<lambda>y. dedup_key y = dedup_key x) es = Some x)"
proof -
  let ?u = "businesses_unique es"
  have key: "e_website e = None \<or> e_website e = Some [] \<longrightarrow> dedup_key e = e_business_name e"
    by (auto simp: dedup_key_def py_or_def truthy_def)
  have d: "distinct (map dedup_key ?u)"
    using first_by_keys [of dedup_key es "[]"] by (simp add: businesses_unique_first_by)
  have n: "length (filter (\<lambda>x. \<not> truthy (e_website x) \<and> e_business_name x = None) ?u) \<le> 1"
    by (rule distinct_map_filter_le_one [OF d, of _ None]) (simp add: dedup_key_no_website)
  have m: "length (filter (\<lambda>x. \<not> truthy (e_website x) \<and> e_business_name x = Some []) ?u) \<le> 1"
    by (rule distinct_map_filter_le_one [OF d, of _ "Some []"]) (simp add: dedup_key_no_website)
  have split: "length (filter (\<lambda>x. \<not> truthy (e_website x) \<and> \<not> truthy (e_business_name x)) xs)
      = length (filter (\<lambda>x. \<not> truthy (e_website x) \<and> e_business_name x = None) xs)
      + length (filter (\<lambda>x. \<not> truthy (e_website x) \<and> e_business_name x = Some []) xs)" for xs
    by (induction xs) (auto simp: truthy_def split: option.splits)
  have b: "length (filter (\<lambda>x. \<not> truthy (e_website x) \<and> \<not> truthy (e_business_name x)) ?u) \<le> 2"
    using n m by (simp add: split)
  have f: "x \<in> set ?u \<longrightarrow> find (\<lambda>y. dedup_key y = dedup_key x) es = Some x"
    using first_by_first [of x dedup_key es "[]"] by (simp add: businesses_unique_first_by)
  from key d n m b f show ?thesis by blast
qed

theorem businesses_unique_blank_witness:
  "e_website (blank_entry None ''p1'') = None
   \<and> dedup_key (blank_entry None ''p1'') = None
   \<and> businesses_unique [blank_entry None ''p1'', blank_entry None ''p2'', blank_entry (Some []) ''p3'']
       = [blank_entry None ''p1'', blank_entry (Some []) ''p3'']
   \<and> blank_entry None ''p1'' \<in> set (businesses_unique [blank_entry None ''p1'', blank_entry None ''p2'', blank_entry (Some []) ''p3''])
   \<and> find (\<lambda>y. dedup_key y = dedup_key (blank_entry None ''p1''))
        [blank_entry None ''p1'', blank_entry None ''p2'', blank_entry (Some []) ''p3''] = Some (blank_entry None ''p1'')"
proof -
  have w: "e_website (blank_entry None ''p1'') = None" by (simp add: blank_entry_def)
  have u: "businesses_unique [blank_entry None ''p1'', blank_entry None ''p2'', blank_entry (Some []) ''p3'']
       = [blank_entry None ''p1'', blank_entry (Some []) ''p3'']"
    by (simp add: businesses_unique_def blank_entry_def dedup_key_def py_or_def truthy_def Let_def)
  note t = businesses_unique_blank [of "blank_entry None ''p1''"
      "[blank_entry None ''p1'', blank_entry None ''p2'', blank_entry (Some []) ''p3'']"
      "blank_entry None ''p1''"]
  from t w have k: "dedup_key (blank_entry None ''p1'') = None" by (simp add: blank_entry_def)
  from u have mem: "blank_entry None ''p1'' \<in> set (businesses_unique [blank_entry None ''p1'', blank_entry None ''p2'', blank_entry (Some []) ''p3''])"
    by simp
  with t have "find (\<lambda>y. dedup_key y = dedup_key (blank_entry None ''p1''))
        [blank_entry None ''p1'', blank_entry None ''p2'', blank_entry (Some []) ''p3''] = Some (blank_entry None ''p1'')"
    by blast
  with w k u mem show ?thesis by blast
qed

text \<open>
  C10 as stated gives all entries without website and name one key, so that one
  survives. An entry whose name is absent and one whose name is the empty string have
  different keys, and both survive.
\<close>

theorem businesses_unique_two_blank_counterexample:
  "\<not> truthy (e_website (blank_entry None ''p1'')) \<and> \<not> truthy (e_business_name (blank_entry None ''p1''))
   \<and> \<not> truthy (e_website (blank_entry (Some []) ''p2'')) \<and> \<not> truthy (e_business_name (blank_entry (Some []) ''p2''))
   \<and> dedup_key (blank_entry None ''p1'') \<noteq> dedup_key (blank_entry (Some []) ''p2'')
   \<and> businesses_unique [blank_entry None ''p1'', blank_entry (Some []) ''p2'']
       = [blank_entry None ''p1'', blank_entry (Some []) ''p2'']"
  by (simp add: businesses_unique_def blank_entry_def dedup_key_def py_or_def truthy_def Let_def)

section \<open>Properties of the duplicate filter across runs and of the store\<close>

text \<open>
  Within one run the filter does what it is for: the rows \<open>process_businesses\<close> builds
  are for pairwise different place ids, none of which was in the identifier set before,
  and all of which are in it afterwards.
\<close>

lemma build_rows_ids:
  "build_rows an bs ids rows = (rows', ids') \<Longrightarrow> distinct (map fst rows) \<Longrightarrow> fst ` set rows \<subseteq> ids \<Longrightarrow>
     distinct (map fst rows') \<and> ids' = ids \<union> fst ` set rows'
     \<and> (fst ` set rows' - fst ` set rows) \<inter> ids = {} \<and> set rows \<subseteq> set rows'"
proof (induction an bs ids rows arbitrary: rows' ids' rule: build_rows.induct)
  case (1 analyses existing_ids rows)
  then show ?case by auto
next
  case (2 analyses b bs existing_ids rows)
  show ?case
  proof (cases "e_place_id b")
    case None
    with 2 show ?thesis by simp
  next
    case (Some pid)
    show ?thesis
    proof (cases "pid = []")
      case True
      with Some 2 show ?thesis by simp
    next
      case False
      show ?thesis
      proof (cases "pid \<in> existing_ids")
        case True
        then have c: "is_new_place pid existing_ids = (False, existing_ids)"
          by (simp add: is_new_place_def)
        from "2.prems"(1) Some False c
        have "build_rows analyses bs existing_ids rows = (rows', ids')" by simp
        from "2.IH"(4) [OF Some False c [symmetric] _ this "2.prems"(2,3)] show ?thesis by simp
      next
        case new: False
        then have c: "is_new_place pid existing_ids = (True, insert pid existing_ids)"
          by (simp add: is_new_place_def)
        define a where "a = (case analyses (Some pid) of Some a \<Rightarrow> a | None \<Rightarrow> default_analysis)"
        from "2.prems"(1) Some False c
        have run: "build_rows analyses bs (insert pid existing_ids) (rows @ [(pid, make_row b a)]) = (rows', ids')"
          by (simp add: a_def)
        have d: "distinct (map fst (rows @ [(pid, make_row b a)]))"
          using "2.prems"(2,3) new by auto
        have s: "fst ` set (rows @ [(pid, make_row b a)]) \<subseteq> insert pid existing_ids"
          using "2.prems"(3) by auto
        from "2.IH"(3) [OF Some False c [symmetric] _ a_def run d s]
        have ih: "distinct (map fst rows')"
            "ids' = insert pid existing_ids \<union> fst ` set rows'"
            "(fst ` set rows' - fst ` set (rows @ [(pid, make_row b a)])) \<inter> insert pid existing_ids = {}"
            "set (rows @ [(pid, make_row b a)]) \<subseteq> set rows'"
          by simp_all
        from ih(4) have mem: "pid \<in> fst ` set rows'" by force
        have "ids' = existing_ids \<union> fst ` set rows'" using ih(2) mem by auto
        moreover have "(fst ` set rows' - fst ` set rows) \<inter> existing_ids = {}"
          using ih(3) new by auto
        moreover have "set rows \<subseteq> set rows'" using ih(4) by auto
        ultimately show ?thesis using ih(1) by blast
      qed
    qed
  qed
qed

lemma process_businesses_ids:
  assumes "process_businesses w businesses api_key existing_ids = (rows, ids, events)"
  shows "distinct (map fst rows) \<and> fst ` set rows \<inter> existing_ids = {}
         \<and> ids = existing_ids \<union> fst ` set rows"
proof -
  from assms obtain an bs where "build_rows an bs existing_ids [] = (rows, ids)"
    by (auto simp: process_businesses_def Let_def split: prod.splits)
  from build_rows_ids [OF this] show ?thesis by auto
qed

text \<open>
  Across runs: every row has the keys \<open>row_keys\<close>, and \<open>place_id\<close> is not among them.
  Whatever pandas does to the order and the types of the cells, \<open>save_results\<close> writes
  no column that was not in the store or in the rows, so a store without a \<open>place_id\<close>
  column never gets one, and the seed set read from it is empty.
\<close>

lemma make_row_keys: "map fst (make_row b a) = row_keys"
  by (simp add: make_row_def row_keys_def Let_def)

lemma build_rows_keys:
  "build_rows an bs ids rows = (rows', ids') \<Longrightarrow> list_all (\<lambda>r. map fst (snd r) = row_keys) rows \<Longrightarrow>
     list_all (\<lambda>r. map fst (snd r) = row_keys) rows'"
proof (induction an bs ids rows arbitrary: rows' ids' rule: build_rows.induct)
  case (1 analyses existing_ids rows)
  then show ?case by simp
next
  case (2 analyses b bs existing_ids rows)
  then show ?case
    by (auto simp: make_row_keys is_new_place_def Let_def split: option.splits if_splits)
qed

lemma process_businesses_keys:
  assumes "process_businesses w businesses api_key existing_ids = (rows, ids, events)"
  shows "list_all (\<lambda>r. map fst r = row_keys) (map snd rows)"
proof -
  from assms obtain an bs where "build_rows an bs existing_ids [] = (rows, ids)"
    by (auto simp: process_businesses_def Let_def split: prod.splits)
  from build_rows_keys [OF this] show ?thesis by (simp add: list_all_iff)
qed

lemma fold_add_cols:
  "set (fold (\<lambda>r cols. add_cols cols (map fst r)) rows acc) = set acc \<union> (\<Union>r\<in>set rows. fst ` set r)"
  by (induction rows arbitrary: acc) (auto simp: add_cols_def)

lemma columns_DataFrame:
  "set (columns (DataFrame rows)) = (\<Union>r\<in>set rows. fst ` set r)"
  by (simp add: DataFrame_def fold_add_cols)

lemma columns_sort_values:
  "sort_values w col f = Inr g \<Longrightarrow> columns g = columns f"
  by (auto simp: sort_values_def Let_def split: if_splits)

lemma columns_drop_duplicates:
  "drop_duplicates keys f = Inr g \<Longrightarrow> columns g = columns f"
  by (auto simp: drop_duplicates_def split: if_splits)

lemma columns_read_csv:
  "read_csv w st = Inr f \<Longrightarrow> columns f = store_columns st"
  by (cases st) (auto split: if_splits)

lemma save_results_columns:
  assumes "save_results w rows st = Inr st'"
  shows "set (store_columns st') \<subseteq> set (store_columns st) \<union> (\<Union>r\<in>set rows. fst ` set r)"
proof -
  have new: "set (store_columns st') \<subseteq> (\<Union>r\<in>set rows. fst ` set r)"
    if "(case sort_values w ''lead_score'' (DataFrame rows) of Inl e \<Rightarrow> Inl e | Inr d \<Rightarrow> Inr (to_csv d)) = Inr st'"
  proof -
    from that obtain d where d: "sort_values w ''lead_score'' (DataFrame rows) = Inr d" "st' = to_csv d"
      by (auto split: sum.splits)
    then show ?thesis
      using columns_sort_values [OF d(1)] by (simp add: to_csv_def columns_DataFrame)
  qed
  show ?thesis
  proof (cases "path_exists st \<and> \<not> is_empty (case read_csv w st of Inl e \<Rightarrow> empty_frame | Inr d \<Rightarrow> d)")
    case False
    with assms have "(case sort_values w ''lead_score'' (DataFrame rows) of Inl e \<Rightarrow> Inl e | Inr d \<Rightarrow> Inr (to_csv d)) = Inr st'"
      by (auto simp: save_results_def Let_def split: if_splits)
    from new [OF this] show ?thesis by blast
  next
    case True
    then obtain old where old: "read_csv w st = Inr old"
      by (cases "read_csv w st") (auto simp: is_empty_def empty_frame_def)
    let ?combined = "concat_frames old (DataFrame rows)"
    have cc: "set (columns ?combined) = set (store_columns st) \<union> (\<Union>r\<in>set rows. fst ` set r)"
      using columns_read_csv [OF old]
      by (auto simp: concat_frames_def add_cols_def columns_DataFrame)
    from True have ex: "path_exists st" and ne: "\<not> is_empty old"
      using old by simp_all
    from assms ex ne old obtain c1 c2 where
        c1: "(if ''website'' \<in> set (columns ?combined)
          then drop_duplicates [''website'', ''business_name''] ?combined
          else drop_duplicates [''business_name''] ?combined) = Inr c1"
        and c2: "sort_values w ''lead_score'' c1 = Inr c2" and st': "st' = to_csv c2"
      by (auto simp: save_results_def Let_def split: sum.splits)
    from c1 have "columns c1 = columns ?combined"
      by (auto dest: columns_drop_duplicates split: if_splits)
    with columns_sort_values [OF c2] have "columns c2 = columns ?combined" by simp
    with st' cc show ?thesis by (simp add: to_csv_def)
  qed
qed

lemma place_id_not_row_key: "''place_id'' \<notin> set row_keys"
  by (simp add: row_keys_def)

lemma rows_keys_subset:
  assumes "process_businesses w found key ids = (rows, ids', evs)"
  shows "(\<Union>r\<in>set (map snd rows). fst ` set r) \<subseteq> set row_keys"
proof
  fix c assume "c \<in> (\<Union>r\<in>set (map snd rows). fst ` set r)"
  then obtain r where r: "r \<in> set (map snd rows)" and c: "c \<in> fst ` set r" by blast
  from process_businesses_keys [OF assms] r have "map fst r = row_keys"
    by (auto simp: list_all_iff)
  then have "set row_keys = fst ` set r" by (metis list.set_map)
  with c show "c \<in> set row_keys" by simp
qed

lemma main_keeps_no_place_id:
  assumes m: "main w key ids st = Some out" and n: "''place_id'' \<notin> set (store_columns st)"
  shows "''place_id'' \<notin> set (store_columns (o_store out))"
proof (cases "key = Some ''YOUR_GOOGLE_API_KEY''")
  case True
  with m have "o_store out = st" by (auto simp: main_def)
  with n show ?thesis by simp
next
  case nokey: False
  with m obtain found evs where g: "get_places (nearby_search w) LOCATION SEARCH_RADIUS KEYWORDS key = Some (found, evs)"
    by (cases "get_places (nearby_search w) LOCATION SEARCH_RADIUS KEYWORDS key") (auto simp: main_def)
  show ?thesis
  proof (cases "found = []")
    case True
    with m nokey g have "o_store out = st" by (auto simp: main_def)
    with n show ?thesis by simp
  next
    case some: False
    obtain rows ids' evs' where p: "process_businesses w found key ids = (rows, ids', evs')"
      by (cases "process_businesses w found key ids") blast
    show ?thesis
    proof (cases "save_results w (map snd rows) st")
      case (Inl e)
      with m nokey g some p have "o_store out = st" by (auto simp: main_def)
      with n show ?thesis by simp
    next
      case (Inr st')
      with m nokey g some p have o: "o_store out = st'" by (auto simp: main_def)
      from save_results_columns [OF Inr] rows_keys_subset [OF p] n place_id_not_row_key
      have "''place_id'' \<notin> set (store_columns st')" by blast
      with o show ?thesis by simp
    qed
  qed
qed

lemma load_without_place_id_column:
  "''place_id'' \<notin> set (store_columns st) \<Longrightarrow> st \<noteq> Undecodable \<Longrightarrow> load_existing_place_ids txt st = Inr {}"
  by (cases st) simp_all

lemma program_keeps_no_place_id:
  assumes "program w key st = Some out" and "''place_id'' \<notin> set (store_columns st)"
  shows "''place_id'' \<notin> set (store_columns (o_store out))"
proof (cases "load_existing_place_ids (csv_text w) st")
  case (Inl e)
  with assms(1) have "o_store out = st" by (auto simp: program_def)
  with assms(2) show ?thesis by simp
next
  case (Inr ids)
  with assms(1) have "main w key ids st = Some out" by (simp add: program_def)
  from main_keeps_no_place_id [OF this assms(2)] show ?thesis .
qed

text \<open>
  C1. At most one row per place id is to be built over any sequence of runs, the seed
  set read from the store's \<open>place_id\<close> column stopping later runs. Two runs on an
  upstream that returns the one place \<open>p1\<close>, starting without a store: both runs build
  a row for \<open>p1\<close>; the seed set read from the store the first run leaves is empty; and
  when the name of the place changes between the runs, the store holds two rows for it.
\<close>

theorem place_emitted_in_both_runs:
  "map_option (map (\<lambda>out. map fst (o_rows out))) (runs [town ''A'', town ''A''] (Some ''k'') Missing)
     = Some [[''p1''], [''p1'']]
   \<and> map_option (map (\<lambda>out. load_existing_place_ids text_val (o_store out)))
        (runs [town ''A''] (Some ''k'') Missing) = Some [Inr {}]
   \<and> map_option (map (\<lambda>out. length (stored_rows (o_store out))))
        (runs [town ''A'', town ''B''] (Some ''k'') Missing) = Some [1, 2]"
  by code_simp

text \<open>
  C8. A missing or corrupt store is to count as empty and never to end the run. A
  missing store gives the empty seed set, and \<open>save_results\<close> treats a store it cannot
  decode as a missing one. \<open>load_existing_place_ids\<close> has no handler: on a store whose
  bytes do not decode, the exception leaves it, and the program, which calls it while
  the module is loaded, ends there.
\<close>

theorem store_corruption:
  "load_existing_place_ids txt Missing = Inr {}
   \<and> load_existing_place_ids txt Undecodable = Inl UnicodeDecodeError
   \<and> program w key Undecodable
       = Some \<lparr>o_error = Some UnicodeDecodeError, o_rows = [], o_store = Undecodable, o_trace = []\<rparr>
   \<and> save_results w rows Undecodable = save_results w rows Missing"
  by (simp add: program_def save_results_def empty_frame_def is_empty_def)

end
